theory Spec2Isabelle
  imports Complex_Main
begin

section \<open>The SMAC tuning scripts of scala-tetris\<close>

text \<open>
  The repository holds two copies of one Python script, \<^verbatim>\<open>smac_optimize.py\<close>:
  \<^item> \<^verbatim>\<open>src/main/python/smac_optimize.py\<close>: facade \<^verbatim>\<open>SMAC4HPO\<close>, \<^verbatim>\<open>n_params = 5\<close>,
    20 trials per evaluation;
  \<^item> \<^verbatim>\<open>src/python/smac_optimize.py\<close>: facade \<^verbatim>\<open>SMAC4BO\<close>, 12 parameters (a literal),
    100 trials per evaluation.
  Everything else is the same text. The embedding below writes the script once, with the
  facade, \<^verbatim>\<open>n_params\<close>, the trial count and the run-count limit as arguments, and then
  instantiates it twice with the literals of the two files.

  Python integers are \<^typ>\<open>int\<close>. The values of a configuration and the score of the
  evaluator are floats that the script only passes on and negates; they are type variables
  \<open>'v\<close> and \<open>'s\<close> (the latter with a unary minus).
\<close>

subsection \<open>Python values: exceptions, \<^verbatim>\<open>range\<close>, f-strings\<close>

datatype py_error =
    KeyError string
  | ValueError string
  | JavaException string

text \<open>\<^verbatim>\<open>str(i)\<close> of an integer, as the f-string \<^verbatim>\<open>f'x{i}'\<close> renders it: decimal digits,
  most significant first, with a minus sign for a negative number.\<close>

definition digit :: "nat \<Rightarrow> char" where
  "digit d = char_of (48 + d)"

fun str_nat :: "nat \<Rightarrow> string" where
  "str_nat n = (if n < 10 then [digit n] else str_nat (n div 10) @ [digit (n mod 10)])"

declare str_nat.simps [simp del]

definition str_int :: "int \<Rightarrow> string" where
  "str_int i = (if i < 0 then CHR ''-'' # str_nat (nat (- i)) else str_nat (nat i))"

text \<open>\<^verbatim>\<open>range(a, b)\<close>: the integers from \<open>a\<close> up to \<open>b - 1\<close>, empty when \<open>b \<le> a\<close>.\<close>

definition py_range :: "int \<Rightarrow> int \<Rightarrow> int list" where
  "py_range a b = [a..b - 1]"

subsection \<open>The parameter space\<close>

text \<open>\<^verbatim>\<open>UniformFloatHyperparameter(name, lower, upper, default_value=...)\<close>. The script
  only ever passes the literals 0, 100 and 1.\<close>

record UniformFloatHyperparameter =
  name :: string
  lower :: real
  upper :: real
  default_value :: real

text \<open>\<^verbatim>\<open>hyper_params = [UniformFloatHyperparameter(f"x{i}", 0, 100, default_value=1)
  for i in range(0, n_params)]\<close>\<close>

definition hyper_params :: "int \<Rightarrow> UniformFloatHyperparameter list" where
  "hyper_params n_params =
     map (\<lambda>i. \<lparr>name = ''x'' @ str_int i, lower = 0, upper = 100, default_value = 1\<rparr>)
       (py_range 0 n_params)"

text \<open>The library's \<^verbatim>\<open>ConfigurationSpace\<close> is a dictionary from names to hyperparameters.
  Its \<^verbatim>\<open>add_hyperparameters\<close> adds the hyperparameters one after the other and raises
  \<^verbatim>\<open>ValueError\<close> at a name that is already in the space.\<close>

type_synonym ConfigurationSpace = "string \<rightharpoonup> UniformFloatHyperparameter"

definition add_hyperparameter ::
  "ConfigurationSpace \<Rightarrow> UniformFloatHyperparameter \<Rightarrow> py_error + ConfigurationSpace" where
  "add_hyperparameter cs h =
     (case cs (name h) of
        Some _ \<Rightarrow> Inl (ValueError (name h))
      | None \<Rightarrow> Inr (cs(name h \<mapsto> h)))"

fun add_hyperparameters ::
  "ConfigurationSpace \<Rightarrow> UniformFloatHyperparameter list \<Rightarrow> py_error + ConfigurationSpace" where
  "add_hyperparameters cs [] = Inr cs"
| "add_hyperparameters cs (h # hs) =
     (case add_hyperparameter cs h of
        Inl e \<Rightarrow> Inl e
      | Inr cs' \<Rightarrow> add_hyperparameters cs' hs)"

text \<open>\<^verbatim>\<open>cs = ConfigurationSpace(); cs.add_hyperparameters(hyper_params)\<close>\<close>

definition configuration_space :: "int \<Rightarrow> py_error + ConfigurationSpace" where
  "configuration_space n_params = add_hyperparameters Map.empty (hyper_params n_params)"

subsection \<open>The world the script runs in\<close>

text \<open>
  What the script does beyond computing values is recorded in a trace: the assignment to
  \<^verbatim>\<open>os.environ\<close>, the class lookup \<^verbatim>\<open>autoclass\<close>, the two \<^verbatim>\<open>print\<close> calls and the call
  of the evaluator. The foreign runtime has a state of its own, \<open>'w\<close>: the evaluator is
  stochastic, so two calls with the same arguments may return different scores.
\<close>

datatype ('v, 's) event =
    Setenv string string
  | Autoclass string
  | Print_params "'v list"
  | Invoke "'v list" int
  | Print_ret 's

record ('v, 's, 'w) world =
  environ :: "string \<rightharpoonup> string"
  jvm :: 'w
  trace :: "('v, 's) event list"

text \<open>The foreign runtime behind \<^verbatim>\<open>jnius\<close>: \<^verbatim>\<open>autoclass\<close> resolves a class by name (it
  reads the environment for the class path) and \<^verbatim>\<open>runStrategyWithConfiguration\<close> is the
  static method of the class \<^verbatim>\<open>RunStrategy\<close>. Either may raise.\<close>

record ('v, 's, 'w) jnius =
  autoclass :: "(string \<rightharpoonup> string) \<Rightarrow> string \<Rightarrow> 'w \<Rightarrow> (py_error + unit) \<times> 'w"
  runStrategyWithConfiguration :: "'v list \<Rightarrow> int \<Rightarrow> 'w \<Rightarrow> (py_error + 's) \<times> 'w"

subsection \<open>The evaluation callback \<^verbatim>\<open>fun_to_optimize\<close>\<close>

text \<open>
  The argument \<open>x\<close> of the callback is an object of the library: a mapping from names to
  values. It is modelled by the list of its items, in its own iteration order, and by what
  its lookup \<^verbatim>\<open>x[k]\<close> does with a name \<open>k\<close> that is not among them. The latter is the
  library's affair and not the script's: a plain dictionary raises \<^verbatim>\<open>KeyError\<close>, and so
  does a \<^verbatim>\<open>Configuration\<close> of ConfigSpace as long as its values have not been queried;
  once they have, its lookup is \<^verbatim>\<open>self._values.get(k)\<close> and returns \<^verbatim>\<open>None\<close>.
\<close>

record 'v Configuration =
  items :: "(string \<times> 'v) list"
  missing :: "string \<Rightarrow> py_error + 'v"

text \<open>\<^verbatim>\<open>x[k]\<close>\<close>

definition getitem :: "'v Configuration \<Rightarrow> string \<Rightarrow> py_error + 'v" where
  "getitem x k = (case map_of (items x) k of None \<Rightarrow> missing x k | Some v \<Rightarrow> Inr v)"

text \<open>A plain dictionary with the given items.\<close>

definition dict :: "(string \<times> 'v) list \<Rightarrow> 'v Configuration" where
  "dict kvs = \<lparr>items = kvs, missing = (\<lambda>k. Inl (KeyError k))\<rparr>"

text \<open>A \<^verbatim>\<open>Configuration\<close> whose values have been queried; \<^verbatim>\<open>None\<close> is a value of its own.\<close>

definition queried :: "(string \<times> 'v) list \<Rightarrow> 'v option Configuration" where
  "queried kvs = \<lparr>items = map (\<lambda>(k, v). (k, Some v)) kvs, missing = (\<lambda>k. Inr None)\<rparr>"

text \<open>The list comprehension \<^verbatim>\<open>[x[k] for k in ks]\<close>: the lookups run from left to right
  and the first one that raises ends the comprehension.\<close>

fun getitems :: "'v Configuration \<Rightarrow> string list \<Rightarrow> py_error + 'v list" where
  "getitems x [] = Inr []"
| "getitems x (k # ks) =
     (case getitem x k of
        Inl e \<Rightarrow> Inl e
      | Inr v \<Rightarrow> (case getitems x ks of Inl e \<Rightarrow> Inl e | Inr vs \<Rightarrow> Inr (v # vs)))"

text \<open>\<^verbatim>\<open>params = [x[f'x{i}'] for i in range(0, n_params)]\<close>\<close>

definition params :: "int \<Rightarrow> 'v Configuration \<Rightarrow> py_error + 'v list" where
  "params n_params x = getitems x (map (\<lambda>i. ''x'' @ str_int i) (py_range 0 n_params))"

text \<open>
  \<^verbatim>\<open>
  def fun_to_optimize(x):
      from jnius import autoclass
      RunStrategy = autoclass('RunStrategy')
      params = [x[f'x{i}'] for i in range(0, n_params)]
      print(f'params:{params}')
      ret = -RunStrategy.runStrategyWithConfiguration(params, 20)
      print(ret)
      return ret
  \<close>
\<close>

definition fun_to_optimize ::
  "int \<Rightarrow> int \<Rightarrow> ('v, 's::uminus, 'w) jnius \<Rightarrow> 'v Configuration \<Rightarrow> ('v, 's, 'w) world
     \<Rightarrow> (py_error + 's) \<times> ('v, 's, 'w) world" where
  "fun_to_optimize n_params trials J x w =
     (let w1 = w\<lparr>trace := trace w @ [Autoclass ''RunStrategy'']\<rparr> in
      case autoclass J (environ w1) ''RunStrategy'' (jvm w1) of
        (Inl e, j1) \<Rightarrow> (Inl e, w1\<lparr>jvm := j1\<rparr>)
      | (Inr RunStrategy, j1) \<Rightarrow>
          let w2 = w1\<lparr>jvm := j1\<rparr> in
          (case params n_params x of
             Inl e \<Rightarrow> (Inl e, w2)
           | Inr ps \<Rightarrow>
               let w3 = w2\<lparr>trace := trace w2 @ [Print_params ps]\<rparr>;
                   w4 = w3\<lparr>trace := trace w3 @ [Invoke ps trials]\<rparr> in
               (case runStrategyWithConfiguration J ps trials (jvm w4) of
                  (Inl e, j2) \<Rightarrow> (Inl e, w4\<lparr>jvm := j2\<rparr>)
                | (Inr raw, j2) \<Rightarrow>
                    let ret = - raw;
                        w5 = w4\<lparr>jvm := j2\<rparr> in
                    (Inr ret, w5\<lparr>trace := trace w5 @ [Print_ret ret]\<rparr>))))"

text \<open>The evaluator calls recorded in a trace, in order.\<close>

fun invocations :: "('v, 's) event list \<Rightarrow> ('v list \<times> int) list" where
  "invocations [] = []"
| "invocations (Invoke ps n # es) = (ps, n) # invocations es"
| "invocations (e # es) = invocations es"

text \<open>The assignments to the environment recorded in a trace, in order.\<close>

fun setenvs :: "('v, 's) event list \<Rightarrow> (string \<times> string) list" where
  "setenvs [] = []"
| "setenvs (Setenv k v # es) = (k, v) # setenvs es"
| "setenvs (e # es) = setenvs es"

subsection \<open>Scenario, optimizer and the script\<close>

text \<open>The dictionary handed to \<^verbatim>\<open>Scenario\<close>, with the values as the script writes them
  (\<^verbatim>\<open>"deterministic": "false"\<close> is the string).\<close>

record Scenario =
  run_obj :: string
  runcount_limit :: int
  cs :: ConfigurationSpace
  deterministic :: string

datatype smac_facade = SMAC4HPO | SMAC4BO

text \<open>\<^verbatim>\<open>SMAC4HPO(scenario=scenario, rng=np.random.RandomState(42), tae_runner=fun_to_optimize)\<close>:
  the object holds the scenario, the seed of the random state and the callback.\<close>

record ('v, 's, 'w) SMAC =
  facade :: smac_facade
  scenario :: Scenario
  rng :: int
  tae_runner :: "'v Configuration \<Rightarrow> ('v, 's, 'w) world \<Rightarrow> (py_error + 's) \<times> ('v, 's, 'w) world"

text \<open>
  The search itself is the library's. All the script knows of it is the protocol: the
  optimizer picks a configuration, calls the callback, looks at what came back (a score or
  an exception) and either goes on or stops. An optimizer is therefore given as the tree of
  its decisions; every run of it is finite.
\<close>

datatype ('v, 's) optimizer =
    Done "py_error + unit"
  | Trial "'v Configuration" "py_error + 's \<Rightarrow> ('v, 's) optimizer"

primrec optimize ::
  "('v, 's) optimizer \<Rightarrow> ('v Configuration \<Rightarrow> 'a \<Rightarrow> (py_error + 's) \<times> 'a) \<Rightarrow> 'a
     \<Rightarrow> (py_error + unit) \<times> 'a" where
  "optimize (Done r) tae w = (r, w)"
| "optimize (Trial x k) tae w = (case tae x w of (r, w') \<Rightarrow> optimize (k r) tae w')"

text \<open>The body of \<^verbatim>\<open>smac_opt\<close> up to the construction of the SMAC object.\<close>

definition smac_object ::
  "smac_facade \<Rightarrow> int \<Rightarrow> int \<Rightarrow> int \<Rightarrow> ('v, 's::uminus, 'w) jnius \<Rightarrow> py_error + ('v, 's, 'w) SMAC" where
  "smac_object fc n_params trials limit J =
     (case configuration_space n_params of
        Inl e \<Rightarrow> Inl e
      | Inr space \<Rightarrow>
          let scenario = \<lparr>run_obj = ''quality'', runcount_limit = limit, cs = space,
                           deterministic = ''false''\<rparr>
          in Inr \<lparr>facade = fc, scenario = scenario, rng = 42,
                  tae_runner = fun_to_optimize n_params trials J\<rparr>)"

text \<open>\<^verbatim>\<open>smac_opt()\<close>: build the object, then \<^verbatim>\<open>smac.optimize()\<close>. The library's search
  policy \<open>lib\<close> is a function of the facade, the scenario and the seed.\<close>

definition smac_opt ::
  "smac_facade \<Rightarrow> int \<Rightarrow> int \<Rightarrow> int \<Rightarrow> ('v, 's::uminus, 'w) jnius
     \<Rightarrow> (smac_facade \<Rightarrow> Scenario \<Rightarrow> int \<Rightarrow> ('v, 's) optimizer)
     \<Rightarrow> ('v, 's, 'w) world \<Rightarrow> (py_error + unit) \<times> ('v, 's, 'w) world" where
  "smac_opt fc n_params trials limit J lib w =
     (case smac_object fc n_params trials limit J of
        Inl e \<Rightarrow> (Inl e, w)
      | Inr smac \<Rightarrow>
          optimize (lib (facade smac) (scenario smac) (rng smac)) (tae_runner smac) w)"

text \<open>The module: \<^verbatim>\<open>os.environ['CLASSPATH'] = "../../target/scala-2.13/Tetris-assembly-0.1.jar"\<close>
  at the top, then \<^verbatim>\<open>smac_opt()\<close> under \<^verbatim>\<open>if __name__ == '__main__'\<close>.\<close>

definition classpath :: string where
  "classpath = ''../../target/scala-2.13/Tetris-assembly-0.1.jar''"

definition set_classpath :: "('v, 's, 'w) world \<Rightarrow> ('v, 's, 'w) world" where
  "set_classpath w =
     w\<lparr>environ := (environ w)(''CLASSPATH'' \<mapsto> classpath),
       trace := trace w @ [Setenv ''CLASSPATH'' classpath]\<rparr>"

definition smac_optimize ::
  "smac_facade \<Rightarrow> int \<Rightarrow> int \<Rightarrow> int \<Rightarrow> ('v, 's::uminus, 'w) jnius
     \<Rightarrow> (smac_facade \<Rightarrow> Scenario \<Rightarrow> int \<Rightarrow> ('v, 's) optimizer)
     \<Rightarrow> ('v, 's, 'w) world \<Rightarrow> (py_error + unit) \<times> ('v, 's, 'w) world" where
  "smac_optimize fc n_params trials limit J lib w =
     smac_opt fc n_params trials limit J lib (set_classpath w)"

text \<open>The two files.\<close>

definition main_python_smac_object :: "('v, 's::uminus, 'w) jnius \<Rightarrow> py_error + ('v, 's, 'w) SMAC" where
  "main_python_smac_object J = smac_object SMAC4HPO 5 20 999999 J"

definition python_smac_object :: "('v, 's::uminus, 'w) jnius \<Rightarrow> py_error + ('v, 's, 'w) SMAC" where
  "python_smac_object J = smac_object SMAC4BO 12 100 999999 J"

definition main_python_smac_optimize ::
  "('v, 's::uminus, 'w) jnius \<Rightarrow> (smac_facade \<Rightarrow> Scenario \<Rightarrow> int \<Rightarrow> ('v, 's) optimizer)
     \<Rightarrow> ('v, 's, 'w) world \<Rightarrow> (py_error + unit) \<times> ('v, 's, 'w) world" where
  "main_python_smac_optimize J lib w = smac_optimize SMAC4HPO 5 20 999999 J lib w"

definition python_smac_optimize ::
  "('v, 's::uminus, 'w) jnius \<Rightarrow> (smac_facade \<Rightarrow> Scenario \<Rightarrow> int \<Rightarrow> ('v, 's) optimizer)
     \<Rightarrow> ('v, 's, 'w) world \<Rightarrow> (py_error + unit) \<times> ('v, 's, 'w) world" where
  "python_smac_optimize J lib w = smac_optimize SMAC4BO 12 100 999999 J lib w"

subsection \<open>A test double for the foreign runtime\<close>

text \<open>A stub runtime for running the script on concrete inputs: the class resolves once
  \<^verbatim>\<open>CLASSPATH\<close> is set, the evaluator returns the score 10 and counts its calls.\<close>

definition stub_jnius :: "('v, real, nat) jnius" where
  "stub_jnius =
     \<lparr>autoclass = (\<lambda>env c j.
        if env ''CLASSPATH'' = None then (Inl (JavaException c), j) else (Inr (), j)),
      runStrategyWithConfiguration = (\<lambda>ps n j. (Inr 10, Suc j))\<rparr>"

definition world0 :: "('v, real, nat) world" where
  "world0 = \<lparr>environ = Map.empty, jvm = 0, trace = []\<rparr>"


section \<open>Properties\<close>

subsection \<open>Names and the parameter space\<close>

lemma digit_inj: "a < 10 \<Longrightarrow> b < 10 \<Longrightarrow> digit a = digit b \<Longrightarrow> a = b"
proof -
  assume a: "a < 10" and b: "b < 10" and eq: "digit a = digit b"
  from eq have "of_char (digit a) = (of_char (digit b) :: nat)" by simp
  with a b show "a = b" by (simp add: digit_def)
qed

lemma str_nat_not_Nil: "str_nat n \<noteq> []"
  by (subst str_nat.simps) simp

lemma str_nat_inj: "str_nat m = str_nat n \<Longrightarrow> m = n"
proof (induction m arbitrary: n rule: str_nat.induct)
  case (1 m)
  show ?case
  proof (cases "m < 10")
    case True
    show ?thesis
    proof (cases "n < 10")
      case n: True
      from "1.prems" True n have "digit m = digit n"
        by (simp add: str_nat.simps [of m] str_nat.simps [of n])
      with True n show ?thesis by (blast intro: digit_inj)
    next
      case n: False
      from "1.prems" True n have "[digit m] = str_nat (n div 10) @ [digit (n mod 10)]"
        by (simp add: str_nat.simps [of m] str_nat.simps [of n])
      then have "str_nat (n div 10) = []" by simp
      then show ?thesis by (simp add: str_nat_not_Nil)
    qed
  next
    case False
    show ?thesis
    proof (cases "n < 10")
      case n: True
      from "1.prems" False n have "str_nat (m div 10) @ [digit (m mod 10)] = [digit n]"
        by (simp add: str_nat.simps [of m] str_nat.simps [of n])
      then have "str_nat (m div 10) = []" by simp
      then show ?thesis by (simp add: str_nat_not_Nil)
    next
      case n: False
      from "1.prems" False n
      have "str_nat (m div 10) @ [digit (m mod 10)] = str_nat (n div 10) @ [digit (n mod 10)]"
        by (simp add: str_nat.simps [of m] str_nat.simps [of n])
      then have s: "str_nat (m div 10) = str_nat (n div 10)"
        and d: "digit (m mod 10) = digit (n mod 10)" by simp_all
      from "1.IH" [OF False s] have q: "m div 10 = n div 10" .
      have r: "m mod 10 = n mod 10" by (rule digit_inj [OF _ _ d]) simp_all
      have "m = 10 * (m div 10) + m mod 10" by simp
      also have "\<dots> = 10 * (n div 10) + n mod 10" using q r by simp
      also have "\<dots> = n" by simp
      finally show ?thesis .
    qed
  qed
qed

lemma str_int_inj: "0 \<le> i \<Longrightarrow> 0 \<le> j \<Longrightarrow> str_int i = str_int j \<Longrightarrow> i = j"
  by (auto simp: str_int_def dest: str_nat_inj)

lemma py_range_0: "py_range 0 n = map int [0..<nat n]"
proof (rule nth_equalityI)
  show "length (py_range 0 n) = length (map int [0..<nat n])"
    by (simp add: py_range_def)
next
  fix i assume "i < length (py_range 0 n)"
  then show "py_range 0 n ! i = map int [0..<nat n] ! i"
    by (simp add: py_range_def)
qed

lemma set_py_range: "set (py_range a b) = {a..<b}"
  by (auto simp: py_range_def)

lemma distinct_py_range: "distinct (py_range a b)"
  by (simp add: py_range_def)

lemma py_range_empty: "b \<le> a \<Longrightarrow> py_range a b = []"
  by (simp add: py_range_def)

lemma distinct_names: "distinct (map (\<lambda>i. ''x'' @ str_int i) (py_range 0 n))"
  by (auto simp: distinct_map distinct_py_range set_py_range inj_on_def dest: str_int_inj)

lemma length_hyper_params: "length (hyper_params n) = nat n"
  by (simp add: hyper_params_def py_range_0)

lemma nth_hyper_params:
  "i < nat n \<Longrightarrow>
   hyper_params n ! i = \<lparr>name = ''x'' @ str_int (int i), lower = 0, upper = 100, default_value = 1\<rparr>"
  by (simp add: hyper_params_def py_range_0)

lemma names_hyper_params:
  "map name (hyper_params n) = map (\<lambda>i. ''x'' @ str_int i) (py_range 0 n)"
  by (simp add: hyper_params_def)

lemma add_hyperparameters_distinct:
  "distinct (map name hs) \<Longrightarrow> (\<And>h. h \<in> set hs \<Longrightarrow> sp (name h) = None) \<Longrightarrow>
   \<exists>sp'. add_hyperparameters sp hs = Inr sp' \<and> dom sp' = dom sp \<union> set (map name hs) \<and>
     (\<forall>h \<in> set hs. sp' (name h) = Some h) \<and> (\<forall>k. k \<notin> set (map name hs) \<longrightarrow> sp' k = sp k)"
proof (induction hs arbitrary: sp)
  case Nil
  then show ?case by simp
next
  case (Cons h hs)
  let ?sp = "sp(name h \<mapsto> h)"
  from Cons.prems have step: "add_hyperparameter sp h = Inr ?sp"
    by (simp add: add_hyperparameter_def)
  from Cons.prems have d: "distinct (map name hs)" and fresh: "name h \<notin> set (map name hs)"
    by simp_all
  have fr: "\<And>g. g \<in> set hs \<Longrightarrow> ?sp (name g) = None"
  proof -
    fix g assume g: "g \<in> set hs"
    then have "name g \<in> set (map name hs)" by simp
    with fresh have "name g \<noteq> name h" by metis
    moreover from g Cons.prems(2) have "sp (name g) = None" by simp
    ultimately show "?sp (name g) = None" by simp
  qed
  from Cons.IH [of ?sp] d fr obtain sp' where r: "add_hyperparameters ?sp hs = Inr sp'"
    and dm: "dom sp' = dom ?sp \<union> set (map name hs)"
    and lk: "\<forall>g \<in> set hs. sp' (name g) = Some g"
    and pr: "\<forall>k. k \<notin> set (map name hs) \<longrightarrow> sp' k = ?sp k" by blast
  from pr fresh have keep: "sp' (name h) = Some h" by simp
  from step r have "add_hyperparameters sp (h # hs) = Inr sp'" by simp
  moreover from dm have "dom sp' = dom sp \<union> set (map name (h # hs))" by auto
  moreover from lk keep have "\<forall>g \<in> set (h # hs). sp' (name g) = Some g" by simp
  moreover from pr have "\<forall>k. k \<notin> set (map name (h # hs)) \<longrightarrow> sp' k = sp k" by simp
  ultimately show ?case by blast
qed

lemma configuration_space_ok:
  "\<exists>sp. configuration_space n = Inr sp \<and> dom sp = set (map name (hyper_params n)) \<and>
     (\<forall>h \<in> set (hyper_params n). sp (name h) = Some h)"
proof -
  have "distinct (map name (hyper_params n))"
    by (simp only: names_hyper_params distinct_names)
  then have "\<exists>sp'. add_hyperparameters Map.empty (hyper_params n) = Inr sp' \<and>
      dom sp' = dom (Map.empty :: ConfigurationSpace) \<union> set (map name (hyper_params n)) \<and>
      (\<forall>h \<in> set (hyper_params n). sp' (name h) = Some h) \<and>
      (\<forall>k. k \<notin> set (map name (hyper_params n)) \<longrightarrow> sp' k = (Map.empty :: ConfigurationSpace) k)"
    by (rule add_hyperparameters_distinct) simp
  then show ?thesis by (auto simp: configuration_space_def)
qed

lemma configuration_space_empty: "n \<le> 0 \<Longrightarrow> configuration_space n = Inr Map.empty"
  by (simp add: configuration_space_def hyper_params_def py_range_empty)

subsection \<open>Lookups and the callback\<close>

lemma getitem_held: "map_of (items x) k = Some v \<Longrightarrow> getitem x k = Inr v"
  by (simp add: getitem_def)

lemma getitem_dict:
  "getitem (dict kvs) k = (case map_of kvs k of None \<Rightarrow> Inl (KeyError k) | Some v \<Rightarrow> Inr v)"
  by (simp add: getitem_def dict_def split: option.splits)

lemma getitem_queried: "getitem (queried kvs) k = Inr (map_of kvs k)"
proof -
  have "map_of (map (\<lambda>(k, v). (k, Some v)) kvs) k = map_option Some (map_of kvs k)"
    by (induction kvs) auto
  then show ?thesis by (cases "map_of kvs k") (simp_all add: getitem_def queried_def)
qed

lemma getitems_values:
  "(\<And>k. k \<in> set ks \<Longrightarrow> getitem x k = Inr (f k)) \<Longrightarrow> getitems x ks = Inr (map f ks)"
  by (induction ks) auto

lemma getitems_raises:
  "k \<in> set ks \<Longrightarrow> getitem x k = Inl e \<Longrightarrow>
   \<exists>k' e'. k' \<in> set ks \<and> getitem x k' = Inl e' \<and> getitems x ks = Inl e'"
proof (induction ks)
  case Nil
  then show ?case by simp
next
  case (Cons a ks)
  show ?case
  proof (cases "getitem x a")
    case (Inl e')
    then have "getitems x (a # ks) = Inl e'" by simp
    with Inl show ?thesis by auto
  next
    case (Inr v)
    with Cons.prems have "k \<in> set ks" by auto
    from Cons.IH [OF this Cons.prems(2)] obtain k' e' where
      "k' \<in> set ks" "getitem x k' = Inl e'" "getitems x ks = Inl e'" by blast
    with Inr show ?thesis by auto
  qed
qed

lemma getitems_cong:
  "(\<And>k. k \<in> set ks \<Longrightarrow> getitem x k = getitem y k) \<Longrightarrow> getitems x ks = getitems y ks"
  by (induction ks) (auto split: sum.splits)

lemma invocations_append: "invocations (es @ fs) = invocations es @ invocations fs"
  by (induction es rule: invocations.induct) auto

lemma setenvs_append: "setenvs (es @ fs) = setenvs es @ setenvs fs"
  by (induction es rule: setenvs.induct) auto

lemma fun_to_optimize_class_error:
  "autoclass J (environ w) ''RunStrategy'' (jvm w) = (Inl e, j) \<Longrightarrow>
   fun_to_optimize n t J x w = (Inl e, w\<lparr>jvm := j, trace := trace w @ [Autoclass ''RunStrategy'']\<rparr>)"
  by (simp add: fun_to_optimize_def)

lemma fun_to_optimize_key_error:
  "autoclass J (environ w) ''RunStrategy'' (jvm w) = (Inr u, j) \<Longrightarrow> params n x = Inl e \<Longrightarrow>
   fun_to_optimize n t J x w = (Inl e, w\<lparr>jvm := j, trace := trace w @ [Autoclass ''RunStrategy'']\<rparr>)"
  by (simp add: fun_to_optimize_def)

lemma fun_to_optimize_call:
  "autoclass J (environ w) ''RunStrategy'' (jvm w) = (Inr u, j) \<Longrightarrow> params n x = Inr ps \<Longrightarrow>
   fun_to_optimize n t J x w =
     (case runStrategyWithConfiguration J ps t j of
        (Inl e, j') \<Rightarrow>
          (Inl e, w\<lparr>jvm := j',
             trace := trace w @ [Autoclass ''RunStrategy'', Print_params ps, Invoke ps t]\<rparr>)
      | (Inr raw, j') \<Rightarrow>
          (Inr (- raw), w\<lparr>jvm := j',
             trace := trace w @ [Autoclass ''RunStrategy'', Print_params ps, Invoke ps t,
               Print_ret (- raw)]\<rparr>))"
  by (simp add: fun_to_optimize_def Let_def split: prod.splits sum.splits)


lemma fun_to_optimize_no_call:
  "params n x = Inl e \<Longrightarrow>
   invocations (trace (snd (fun_to_optimize n t J x w))) = invocations (trace w) \<and>
   (\<exists>e'. fst (fun_to_optimize n t J x w) = Inl e')"
  by (auto simp: fun_to_optimize_def Let_def invocations_append split: prod.splits sum.splits)

lemma fun_to_optimize_calls:
  "autoclass J (environ w) ''RunStrategy'' (jvm w) = (Inr u, j) \<Longrightarrow> params n x = Inr ps \<Longrightarrow>
   invocations (trace (snd (fun_to_optimize n t J x w))) = invocations (trace w) @ [(ps, t)]"
  by (simp add: fun_to_optimize_call invocations_append split: prod.splits sum.splits)

subsection \<open>The parameter vector\<close>

lemma params_cong:
  "(\<And>i. 0 \<le> i \<Longrightarrow> i < n \<Longrightarrow> getitem x (''x'' @ str_int i) = getitem y (''x'' @ str_int i)) \<Longrightarrow>
   params n x = params n y"
  unfolding params_def by (rule getitems_cong) (auto simp: set_py_range)

lemma params_values:
  "(\<And>i. 0 \<le> i \<Longrightarrow> i < n \<Longrightarrow> getitem x (''x'' @ str_int i) = Inr (f i)) \<Longrightarrow>
   params n x = Inr (map f (py_range 0 n))"
proof -
  assume a: "\<And>i. 0 \<le> i \<Longrightarrow> i < n \<Longrightarrow> getitem x (''x'' @ str_int i) = Inr (f i)"
  have "getitems x ks = Inr (map f is)"
    if "ks = map (\<lambda>i. ''x'' @ str_int i) is" and "set is \<subseteq> {0..<n}" for ks "is"
    using that
  proof (induction "is" arbitrary: ks)
    case Nil
    then show ?case by simp
  next
    case (Cons i "is")
    from Cons.prems have "getitem x (''x'' @ str_int i) = Inr (f i)" by (intro a) auto
    moreover from Cons.prems have "getitems x (map (\<lambda>i. ''x'' @ str_int i) is) = Inr (map f is)"
      by (intro Cons.IH) auto
    ultimately show ?case using Cons.prems(1) by simp
  qed
  then show ?thesis by (simp add: params_def set_py_range)
qed

lemma params_raises:
  "0 \<le> i \<Longrightarrow> i < n \<Longrightarrow> getitem x (''x'' @ str_int i) = Inl e \<Longrightarrow>
   \<exists>i' e'. 0 \<le> i' \<and> i' < n \<and> getitem x (''x'' @ str_int i') = Inl e' \<and> params n x = Inl e'"
proof -
  assume i: "0 \<le> i" "i < n" and m: "getitem x (''x'' @ str_int i) = Inl e"
  let ?ks = "map (\<lambda>i. ''x'' @ str_int i) (py_range 0 n)"
  from i have "''x'' @ str_int i \<in> set ?ks" by (simp add: set_py_range)
  from getitems_raises [OF this m] obtain k' e' where
    k: "k' \<in> set ?ks" "getitem x k' = Inl e'" "getitems x ?ks = Inl e'" by blast
  from k(1) obtain i' where "0 \<le> i'" "i' < n" "k' = ''x'' @ str_int i'"
    by (auto simp: set_py_range)
  with k show ?thesis by (auto simp: params_def)
qed


subsection \<open>Concrete names and the stub\<close>

lemma names_1: "map (\<lambda>i. ''x'' @ str_int i) (py_range 0 1) = [''x0'']"
  by code_simp

lemma names_2: "map (\<lambda>i. ''x'' @ str_int i) (py_range 0 2) = [''x0'', ''x1'']"
  by code_simp

lemma names_3: "map (\<lambda>i. ''x'' @ str_int i) (py_range 0 3) = [''x0'', ''x1'', ''x2'']"
  by code_simp



lemma py_range_0_3: "py_range 0 3 = [0, 1, 2]"
  by code_simp

lemma str_int_0: "str_int 0 = ''0''" by code_simp
lemma str_int_1: "str_int 1 = ''1''" by code_simp
lemma str_int_2: "str_int 2 = ''2''" by code_simp

lemma stub_autoclass:
  "autoclass stub_jnius (environ (set_classpath world0)) ''RunStrategy'' (jvm (set_classpath world0))
     = (Inr (), 0)"
  by (simp add: stub_jnius_def set_classpath_def world0_def)

lemma stub_trace: "invocations (trace (set_classpath world0)) = []"
  by (simp add: set_classpath_def world0_def)

lemma stub_evaluator: "runStrategyWithConfiguration stub_jnius ps t j = (Inr 10, Suc j)"
  by (simp add: stub_jnius_def)

subsection \<open>The space, the SMAC object and the frame of a run\<close>

lemma hyper_params_bounds:
  "h \<in> set (hyper_params n) \<Longrightarrow> lower h = 0 \<and> upper h = 100 \<and> default_value h = 1"
  by (auto simp: hyper_params_def)

lemma distinct_hyper_params: "distinct (map name (hyper_params n))"
  by (simp only: names_hyper_params distinct_names)

lemma fun_to_optimize_frame:
  "environ (snd (fun_to_optimize n t J x w)) = environ w \<and>
   (\<exists>es. trace (snd (fun_to_optimize n t J x w)) = trace w @ es \<and> setenvs es = [])"
  by (auto simp: fun_to_optimize_def Let_def split: prod.splits sum.splits)

lemma optimize_frame:
  "environ (snd (optimize opt (fun_to_optimize n t J) w)) = environ w \<and>
   (\<exists>es. trace (snd (optimize opt (fun_to_optimize n t J) w)) = trace w @ es \<and> setenvs es = [])"
proof (induction opt arbitrary: w)
  case (Done r)
  show ?case by simp
next
  case (Trial x k)
  obtain r w' where step: "fun_to_optimize n t J x w = (r, w')"
    by (cases "fun_to_optimize n t J x w")
  from fun_to_optimize_frame [of n t J x w] step obtain es where
    e: "environ w' = environ w" "trace w' = trace w @ es" "setenvs es = []"
    by auto
  from Trial.IH [of "k r" w'] obtain fs where
    f: "environ (snd (optimize (k r) (fun_to_optimize n t J) w')) = environ w'"
      "trace (snd (optimize (k r) (fun_to_optimize n t J) w')) = trace w' @ fs" "setenvs fs = []"
    by auto
  have "optimize (Trial x k) (fun_to_optimize n t J) w = optimize (k r) (fun_to_optimize n t J) w'"
    by (simp add: step)
  moreover have "setenvs (es @ fs) = []" using e f by (simp add: setenvs_append)
  ultimately show ?case using e f by auto
qed



lemma smac_optimize_frame:
  "environ (snd (smac_optimize fc n t b J lib w)) = (environ w)(''CLASSPATH'' \<mapsto> classpath) \<and>
   (\<exists>es. trace (snd (smac_optimize fc n t b J lib w)) =
           trace w @ Setenv ''CLASSPATH'' classpath # es \<and> setenvs es = [])"
proof -
  let ?w = "set_classpath w"
  have env: "environ ?w = (environ w)(''CLASSPATH'' \<mapsto> classpath)"
    and tr: "trace ?w = trace w @ [Setenv ''CLASSPATH'' classpath]"
    by (simp_all add: set_classpath_def)
  have run: "environ (snd (smac_opt fc n t b J lib ?w)) = environ ?w \<and>
    (\<exists>es. trace (snd (smac_opt fc n t b J lib ?w)) = trace ?w @ es \<and> setenvs es = [])"
  proof (cases "smac_object fc n t b J")
    case (Inl e)
    then show ?thesis by (simp add: smac_opt_def)
  next
    case (Inr smac)
    then have "tae_runner smac = fun_to_optimize n t J"
      by (auto simp: smac_object_def split: sum.splits)
    with Inr show ?thesis by (simp add: smac_opt_def optimize_frame)
  qed
  from run env tr show ?thesis by (auto simp: smac_optimize_def)
qed






section \<open>The claims\<close>

text \<open>
  Claim C1. For a configuration whose keys are exactly the names \<open>x0\<close>, ..., \<open>x(N-1)\<close>, the
  parameter vector is the value of \<open>x0\<close>, then of \<open>x1\<close>, ..., then of \<open>x(N-1)\<close>; once the
  class resolves, the evaluator is called with exactly this vector and the trial count; and a
  configuration with the same items in another iteration order gives the same vector and the
  same run of the callback.
\<close>

theorem parameter_vector_in_space_order:
  assumes keys: "fst ` set (items x) = (\<lambda>i. ''x'' @ str_int i) ` {0..<N}"
    and cls: "autoclass J (environ w) ''RunStrategy'' (jvm w) = (Inr u, j)"
  shows "params N x = Inr (map (\<lambda>i. the (map_of (items x) (''x'' @ str_int i))) (py_range 0 N)) \<and>
    invocations (trace (snd (fun_to_optimize N t J x w))) =
      invocations (trace w) @
        [(map (\<lambda>i. the (map_of (items x) (''x'' @ str_int i))) (py_range 0 N), t)] \<and>
    (\<forall>y. distinct (map fst (items x)) \<and> distinct (map fst (items y)) \<and>
         set (items y) = set (items x) \<longrightarrow>
       params N y = params N x \<and> fun_to_optimize N t J y w = fun_to_optimize N t J x w)"
proof -
  let ?f = "\<lambda>i. the (map_of (items x) (''x'' @ str_int i))"
  have held: "getitem x (''x'' @ str_int i) = Inr (?f i)" if "0 \<le> i" "i < N" for i
  proof -
    from that have "''x'' @ str_int i \<in> fst ` set (items x)" unfolding keys by simp
    then have "map_of (items x) (''x'' @ str_int i) \<noteq> None" by (simp add: map_of_eq_None_iff)
    then show ?thesis by (auto intro: getitem_held)
  qed
  then have p: "params N x = Inr (map ?f (py_range 0 N))" by (rule params_values)
  have c: "invocations (trace (snd (fun_to_optimize N t J x w))) =
      invocations (trace w) @ [(map ?f (py_range 0 N), t)]"
    by (rule fun_to_optimize_calls [OF cls p])
  have o: "params N y = params N x \<and> fun_to_optimize N t J y w = fun_to_optimize N t J x w"
    if "distinct (map fst (items x)) \<and> distinct (map fst (items y)) \<and>
        set (items y) = set (items x)" for y
  proof -
    from that have eq: "map_of (items y) = map_of (items x)" by (simp add: map_of_inject_set)
    have pe: "params N y = params N x"
    proof (rule params_cong)
      fix i :: int assume i: "0 \<le> i" "i < N"
      from held [OF i] have "map_of (items x) (''x'' @ str_int i) \<noteq> None"
        using i keys by (auto simp: map_of_eq_None_iff)
      then obtain v where v: "map_of (items x) (''x'' @ str_int i) = Some v" by blast
      with eq have "map_of (items y) (''x'' @ str_int i) = Some v" by simp
      with v show "getitem y (''x'' @ str_int i) = getitem x (''x'' @ str_int i)"
        by (simp add: getitem_held)
    qed
    have "fun_to_optimize N t J y w = fun_to_optimize N t J x w"
      unfolding fun_to_optimize_def pe ..
    with pe show ?thesis ..
  qed
  from p c o show ?thesis by blast
qed

theorem parameter_vector_in_space_order_witness:
  "params 3 (dict [(''x1'', 5), (''x0'', 2), (''x2'', 9)]) = Inr [2, 5, 9 :: real] \<and>
   invocations (trace (snd (fun_to_optimize 3 20 stub_jnius
     (dict [(''x1'', 5), (''x0'', 2), (''x2'', 9)]) (set_classpath world0)))) =
     [([2, 5, 9 :: real], 20)] \<and>
   fun_to_optimize 3 20 stub_jnius
     (dict [(''x0'', 2), (''x1'', 5), (''x2'', 9 :: real)]) (set_classpath world0) =
   fun_to_optimize 3 20 stub_jnius
     (dict [(''x1'', 5), (''x0'', 2), (''x2'', 9)]) (set_classpath world0)"
proof -
  let ?x = "dict [(''x1'', 5), (''x0'', 2), (''x2'', 9 :: real)]"
  let ?y = "dict [(''x0'', 2), (''x1'', 5), (''x2'', 9 :: real)]"
  have "(\<lambda>i. ''x'' @ str_int i) ` {0..<3} = set (map (\<lambda>i. ''x'' @ str_int i) (py_range 0 3))"
    by (simp only: set_map set_py_range)
  also have "\<dots> = {''x0'', ''x1'', ''x2''}"
    unfolding names_3 by simp
  finally have keys: "fst ` set (items ?x) = (\<lambda>i. ''x'' @ str_int i) ` {0..<3}"
    by (auto simp: dict_def)
  have v: "map (\<lambda>i. the (map_of (items ?x) (''x'' @ str_int i))) (py_range 0 3) = [2, 5, 9]"
    unfolding py_range_0_3 by (simp add: str_int_0 str_int_1 str_int_2 dict_def)
  have d: "distinct (map fst (items ?x)) \<and> distinct (map fst (items ?y)) \<and>
      set (items ?y) = set (items ?x)"
    by (auto simp: dict_def)
  note th = parameter_vector_in_space_order [OF keys stub_autoclass, of 20,
      unfolded v stub_trace append_Nil]
  from th d have "fun_to_optimize 3 20 stub_jnius ?y (set_classpath world0) =
      fun_to_optimize 3 20 stub_jnius ?x (set_classpath world0)"
    by blast
  with th [THEN conjunct1] th [THEN conjunct2, THEN conjunct1] show ?thesis
    by (intro conjI)
qed

text \<open>
  Claim C2. Whenever the class \<^verbatim>\<open>RunStrategy\<close> resolves, the configuration yields the
  parameter vector \<open>ps\<close> and the evaluator, called with \<open>ps\<close> and the trial count, returns the
  raw score \<open>raw\<close>, the callback returns \<open>- raw\<close> to the optimizer.
\<close>

theorem evaluate_negates_raw_score:
  assumes "autoclass J (environ w) ''RunStrategy'' (jvm w) = (Inr u, j)"
    and "params n x = Inr ps"
    and "runStrategyWithConfiguration J ps t j = (Inr raw, j')"
  shows "fst (fun_to_optimize n t J x w) = Inr (- raw)"
  using assms by (simp add: fun_to_optimize_call)

theorem evaluate_negates_raw_score_witness:
  "params 1 (dict [(''x0'', 3)]) = Inr [3 :: real] \<and>
   runStrategyWithConfiguration stub_jnius [3 :: real] 20 0 = (Inr 10, Suc 0) \<and>
   fst (fun_to_optimize 1 20 stub_jnius (dict [(''x0'', 3 :: real)]) (set_classpath world0)) = Inr (- 10)"
proof -
  have p: "params 1 (dict [(''x0'', 3)]) = Inr [3 :: real]"
    unfolding params_def names_1 by (simp add: getitem_dict)
  have r: "runStrategyWithConfiguration stub_jnius [3 :: real] 20 0 = (Inr 10, Suc 0)"
    by (rule stub_evaluator)
  from evaluate_negates_raw_score [OF stub_autoclass p r] p r show ?thesis by simp
qed

text \<open>
  Claim C3. For every \<open>n \<ge> 1\<close>, the list \<^verbatim>\<open>hyper_params\<close> has exactly \<open>n\<close> entries, the
  \<open>i\<close>-th one named \<open>x{i}\<close> with lower bound 0, upper bound 100 and default value 1; the names
  are pairwise different, so the configuration space accepts them all and holds exactly these
  \<open>n\<close> hyperparameters.
\<close>

theorem space_of_n_dimensions:
  assumes "1 \<le> n"
  shows "length (hyper_params n) = nat n \<and>
    (\<forall>i. 0 \<le> i \<and> i < n \<longrightarrow>
       hyper_params n ! nat i =
         \<lparr>name = ''x'' @ str_int i, lower = 0, upper = 100, default_value = 1\<rparr>) \<and>
    distinct (map name (hyper_params n)) \<and>
    (\<exists>sp. configuration_space n = Inr sp \<and> dom sp = set (map name (hyper_params n)) \<and>
       card (dom sp) = nat n \<and> (\<forall>h \<in> set (hyper_params n). sp (name h) = Some h))"
proof -
  have nth: "hyper_params n ! nat i =
      \<lparr>name = ''x'' @ str_int i, lower = 0, upper = 100, default_value = 1\<rparr>"
    if "0 \<le> i \<and> i < n" for i
    using that nth_hyper_params [of "nat i" n] by simp
  from configuration_space_ok [of n] obtain sp where sp: "configuration_space n = Inr sp"
    "dom sp = set (map name (hyper_params n))" "\<forall>h \<in> set (hyper_params n). sp (name h) = Some h"
    by blast
  have "card (set (map name (hyper_params n))) = length (map name (hyper_params n))"
    by (rule distinct_card) (rule distinct_hyper_params)
  with sp(2) have "card (dom sp) = nat n" by (simp add: length_hyper_params)
  with sp nth show ?thesis
    by (auto simp: length_hyper_params distinct_hyper_params simp del: set_map)
qed

theorem space_of_n_dimensions_witness:
  "length (hyper_params 3) = 3 \<and>
   hyper_params 3 ! 0 = \<lparr>name = ''x0'', lower = 0, upper = 100, default_value = 1\<rparr> \<and>
   hyper_params 3 ! 1 = \<lparr>name = ''x1'', lower = 0, upper = 100, default_value = 1\<rparr> \<and>
   hyper_params 3 ! 2 = \<lparr>name = ''x2'', lower = 0, upper = 100, default_value = 1\<rparr> \<and>
   distinct (map name (hyper_params 3))"
proof -
  have n: "(1::int) \<le> 3" by simp
  note th = space_of_n_dimensions [OF n]
  from th have l: "length (hyper_params 3) = 3" by simp
  from th have a: "\<And>i. 0 \<le> i \<and> i < 3 \<Longrightarrow>  hyper_params 3 ! nat i =
         \<lparr>name = ''x'' @ str_int i, lower = 0, upper = 100, default_value = 1\<rparr>" by blast
  from a [of 0] a [of 1] a [of 2] l th show ?thesis
    by (simp add: str_int_0 str_int_1 str_int_2)
qed






text \<open>
  Claim C6, as the code has it. With the run-count limit 0 in place of the literal, the
  script still builds its SMAC object: nothing in the script checks the limit.
\<close>

theorem budget_zero_is_accepted:
  "\<exists>smac. smac_object SMAC4HPO 5 20 0 stub_jnius = Inr smac \<and> runcount_limit (scenario smac) = 0"
proof -
  from configuration_space_ok [of 5] obtain sp where "configuration_space 5 = Inr sp" by blast
  then show ?thesis by (simp add: smac_object_def)
qed

text \<open>
  Claim C6, amended. The script hands whatever run-count limit it is given to the scenario
  unchanged and without a check; both files hand over the literal 999999.
\<close>

theorem budget_is_passed_unchecked:
  "(\<exists>smac. smac_object fc n t b J = Inr smac \<and> runcount_limit (scenario smac) = b) \<and>
   (\<exists>smac. main_python_smac_object J = Inr smac \<and> runcount_limit (scenario smac) = 999999) \<and>
   (\<exists>smac. python_smac_object J = Inr smac \<and> runcount_limit (scenario smac) = 999999)"
proof -
  have "\<exists>smac. smac_object fc n t b J = Inr smac \<and> runcount_limit (scenario smac) = b"
    for fc n t b
  proof -
    from configuration_space_ok [of n] obtain sp where "configuration_space n = Inr sp" by blast
    then show ?thesis by (simp add: smac_object_def)
  qed
  then show ?thesis by (simp add: main_python_smac_object_def python_smac_object_def)
qed

text \<open>
  Claim C7, as the code has it. For \<open>n = 0\<close> the construction of the space does not fail: it
  returns the empty space.
\<close>

theorem empty_space_is_built: "configuration_space 0 = Inr Map.empty"
  by (simp add: configuration_space_def hyper_params_def py_range_def)

text \<open>
  Claim C7, amended. The construction of the space never fails; for \<open>n \<le> 0\<close> it yields the
  empty space; every dimension it builds has the bounds 0 and 100, so no bound is inverted.
\<close>

theorem space_construction_never_fails:
  "(\<exists>sp. configuration_space n = Inr sp \<and> dom sp = set (map name (hyper_params n))) \<and>
   (n \<le> 0 \<longrightarrow> hyper_params n = [] \<and> configuration_space n = Inr Map.empty) \<and>
   (\<forall>h \<in> set (hyper_params n). lower h = 0 \<and> upper h = 100 \<and> lower h \<le> upper h)"
proof -
  from configuration_space_ok [of n]
  have "\<exists>sp. configuration_space n = Inr sp \<and> dom sp = set (map name (hyper_params n))"
    by blast
  moreover have "n \<le> 0 \<longrightarrow> hyper_params n = [] \<and> configuration_space n = Inr Map.empty"
    by (simp add: configuration_space_empty hyper_params_def py_range_empty)
  moreover have "\<forall>h \<in> set (hyper_params n). lower h = 0 \<and> upper h = 100 \<and> lower h \<le> upper h"
    by (auto dest: hyper_params_bounds)
  ultimately show ?thesis by blast
qed

theorem space_construction_never_fails_witness:
  "hyper_params (- 3) = [] \<and> configuration_space (- 3) = Inr Map.empty \<and>
   lower (hyper_params 3 ! 2) = 0 \<and> upper (hyper_params 3 ! 2) = 100"
proof -
  note th = space_construction_never_fails [of "- 3"]
  note th3 = space_construction_never_fails [of 3]
  have m: "hyper_params 3 ! 2 \<in> set (hyper_params 3)"
    by (rule nth_mem) (simp add: length_hyper_params)
  from th have "hyper_params (- 3) = [] \<and> configuration_space (- 3) = Inr Map.empty" by simp
  moreover from th3 m have "lower (hyper_params 3 ! 2) = 0 \<and> upper (hyper_params 3 ! 2) = 100"
    by blast
  ultimately show ?thesis by blast
qed

text \<open>
  Claim C8. In every run of either script, whatever the optimizer and the foreign runtime do,
  the assignment of \<^verbatim>\<open>CLASSPATH\<close> is the first event, no later event is an assignment to the
  environment, and the environment at the end is the one right after that assignment. A
  single run of the callback leaves the environment as it found it.
\<close>

theorem classpath_assigned_once_at_start:
  "environ (snd (main_python_smac_optimize J lib w)) = (environ w)(''CLASSPATH'' \<mapsto> classpath) \<and>
   (\<exists>es. trace (snd (main_python_smac_optimize J lib w)) =
           trace w @ Setenv ''CLASSPATH'' classpath # es \<and> setenvs es = []) \<and>
   environ (snd (python_smac_optimize J lib w)) = (environ w)(''CLASSPATH'' \<mapsto> classpath) \<and>
   (\<exists>es. trace (snd (python_smac_optimize J lib w)) =
           trace w @ Setenv ''CLASSPATH'' classpath # es \<and> setenvs es = []) \<and>
   environ (snd (fun_to_optimize n t J x w)) = environ w \<and>
   setenvs (trace (snd (fun_to_optimize n t J x w))) = setenvs (trace w)"
proof -
  from fun_to_optimize_frame [of n t J x w]
  have "environ (snd (fun_to_optimize n t J x w)) = environ w \<and>
      setenvs (trace (snd (fun_to_optimize n t J x w))) = setenvs (trace w)"
    by (auto simp: setenvs_append)
  with smac_optimize_frame [of SMAC4HPO 5 20 999999 J lib w]
    smac_optimize_frame [of SMAC4BO 12 100 999999 J lib w]
  show ?thesis
    unfolding main_python_smac_optimize_def python_smac_optimize_def by blast
qed

text \<open>
  Claim C9. Two configurations whose lookups of \<open>x0\<close>, ..., \<open>x(N-1)\<close> agree give the same
  parameter vector and the same run of the callback (result, evaluator call, trace, state of
  the foreign runtime), whatever other keys either of them holds.
\<close>

theorem extra_keys_have_no_influence:
  assumes "\<forall>i. 0 \<le> i \<and> i < n \<longrightarrow> getitem x (''x'' @ str_int i) = getitem y (''x'' @ str_int i)"
  shows "params n x = params n y \<and> fun_to_optimize n t J x w = fun_to_optimize n t J y w"
proof -
  from assms have eq: "params n x = params n y" by (intro params_cong) simp
  have "fun_to_optimize n t J x w = fun_to_optimize n t J y w"
    unfolding fun_to_optimize_def eq ..
  with eq show ?thesis ..
qed

theorem extra_keys_have_no_influence_witness:
  "params 1 (dict [(''x0'', 3 :: real)]) = params 1 (dict [(''seed'', 7), (''x0'', 3), (''x1'', 4)]) \<and>
   fun_to_optimize 1 20 stub_jnius (dict [(''x0'', 3 :: real)]) (set_classpath world0) =
   fun_to_optimize 1 20 stub_jnius (dict [(''seed'', 7), (''x0'', 3), (''x1'', 4)]) (set_classpath world0)"
proof -
  have h: "\<forall>i. 0 \<le> i \<and> i < 1 \<longrightarrow>
      getitem (dict [(''x0'', 3 :: real)]) (''x'' @ str_int i) =
      getitem (dict [(''seed'', 7), (''x0'', 3), (''x1'', 4)]) (''x'' @ str_int i)"
  proof (intro allI impI)
    fix i :: int assume "0 \<le> i \<and> i < 1"
    then have "i = 0" by simp
    then show "getitem (dict [(''x0'', 3 :: real)]) (''x'' @ str_int i) =
      getitem (dict [(''seed'', 7), (''x0'', 3), (''x1'', 4)]) (''x'' @ str_int i)"
      by (simp add: str_int_0 getitem_dict)
  qed
  show ?thesis
    by (rule extra_keys_have_no_influence [OF h, of 20 stub_jnius "set_classpath world0"])
qed

text \<open>
  Claim C10, as the code has it. A \<^verbatim>\<open>Configuration\<close> with queried values that holds \<open>x0\<close>
  but not \<open>x1\<close> raises nothing: its lookup of \<open>x1\<close> returns \<^verbatim>\<open>None\<close>, the evaluator is called
  with the vector \<open>[3, None]\<close>, and the callback returns the negated score.
\<close>

theorem absent_key_reaches_evaluator:
  "map_of (items (queried [(''x0'', 3 :: real)])) ''x1'' = None \<and>
   fst (fun_to_optimize 2 20 stub_jnius (queried [(''x0'', 3 :: real)]) (set_classpath world0)) =
     Inr (- 10) \<and>
   invocations (trace (snd (fun_to_optimize 2 20 stub_jnius (queried [(''x0'', 3 :: real)])
     (set_classpath world0)))) = [([Some 3, None], 20)]"
proof -
  have q: "params 2 (queried [(''x0'', 3 :: real)]) = Inr [Some 3, None]"
    unfolding params_def names_2 by (simp add: getitem_queried)
  have "map_of (items (queried [(''x0'', 3 :: real)])) ''x1'' = None"
    by (simp add: queried_def)
  moreover have "fst (fun_to_optimize 2 20 stub_jnius (queried [(''x0'', 3 :: real)])
      (set_classpath world0)) = Inr (- 10)"
    unfolding fun_to_optimize_call [OF stub_autoclass q] by (simp add: stub_evaluator)
  moreover have "invocations (trace (snd (fun_to_optimize 2 20 stub_jnius
      (queried [(''x0'', 3 :: real)]) (set_classpath world0)))) = [([Some 3, None], 20)]"
    unfolding fun_to_optimize_calls [OF stub_autoclass q] by (simp add: stub_trace)
  ultimately show ?thesis by (intro conjI)
qed

text \<open>
  Claim C10, amended. If the lookup of \<open>x{i}\<close> raises for some \<open>0 \<le> i < n\<close> (as the lookup of
  a plain dictionary does, with \<^verbatim>\<open>KeyError\<close>, for a key it lacks), the callback makes no
  evaluator call and ends in an exception: the exception of the class lookup if the class
  does not resolve, and otherwise the exception of such a lookup, raised while the parameter
  vector is built.
\<close>

theorem raising_lookup_never_reaches_evaluator:
  assumes "0 \<le> i" and "i < n" and "getitem x (''x'' @ str_int i) = Inl e"
  shows "invocations (trace (snd (fun_to_optimize n t J x w))) = invocations (trace w) \<and>
    (\<exists>e'. fst (fun_to_optimize n t J x w) = Inl e') \<and>
    (\<forall>u j. autoclass J (environ w) ''RunStrategy'' (jvm w) = (Inr u, j) \<longrightarrow>
      (\<exists>i' e'. 0 \<le> i' \<and> i' < n \<and> getitem x (''x'' @ str_int i') = Inl e' \<and>
         fst (fun_to_optimize n t J x w) = Inl e')) \<and>
    (\<forall>e' j. autoclass J (environ w) ''RunStrategy'' (jvm w) = (Inl e', j) \<longrightarrow>
       fst (fun_to_optimize n t J x w) = Inl e')"
proof -
  from params_raises [OF assms] obtain i' e' where i': "0 \<le> i'" "i' < n"
    "getitem x (''x'' @ str_int i') = Inl e'" "params n x = Inl e'"
    by blast
  from fun_to_optimize_no_call [OF i'(4), of t J w]
  have a: "invocations (trace (snd (fun_to_optimize n t J x w))) = invocations (trace w)"
    and b: "\<exists>e. fst (fun_to_optimize n t J x w) = Inl e" by simp_all
  have "fst (fun_to_optimize n t J x w) = Inl e'"
    if "autoclass J (environ w) ''RunStrategy'' (jvm w) = (Inr u, j)" for u j
    using fun_to_optimize_key_error [OF that i'(4)] by simp
  with i' have c: "\<forall>u j. autoclass J (environ w) ''RunStrategy'' (jvm w) = (Inr u, j) \<longrightarrow>
      (\<exists>i' e'. 0 \<le> i' \<and> i' < n \<and> getitem x (''x'' @ str_int i') = Inl e' \<and>
         fst (fun_to_optimize n t J x w) = Inl e')"
    by blast
  have d: "\<forall>e' j. autoclass J (environ w) ''RunStrategy'' (jvm w) = (Inl e', j) \<longrightarrow>
       fst (fun_to_optimize n t J x w) = Inl e'"
    by (simp add: fun_to_optimize_class_error)
  from a b c d show ?thesis by blast
qed

theorem raising_lookup_never_reaches_evaluator_witness:
  "getitem (dict [(''x0'', 3 :: real)]) (''x'' @ str_int 1) = Inl (KeyError ''x1'') \<and>
   invocations (trace (snd (fun_to_optimize 2 20 stub_jnius (dict [(''x0'', 3 :: real)])
     (set_classpath world0)))) = [] \<and>
   fst (fun_to_optimize 2 20 stub_jnius (dict [(''x0'', 3 :: real)]) (set_classpath world0)) =
     Inl (KeyError ''x1'') \<and>
   fst (fun_to_optimize 2 20 stub_jnius (dict [(''x0'', 3 :: real)]) world0) =
     Inl (JavaException ''RunStrategy'')"
proof -
  let ?d = "dict [(''x0'', 3 :: real)]"
  have m: "getitem ?d (''x'' @ str_int 1) = Inl (KeyError ''x1'')"
    by (simp add: str_int_1 getitem_dict)
  have p1: "(0::int) \<le> 1" and p2: "(1::int) < 2" by simp_all
  note th = raising_lookup_never_reaches_evaluator [OF p1 p2 m, of 20 stub_jnius
      "set_classpath world0"]
  note th0 = raising_lookup_never_reaches_evaluator [OF p1 p2 m, of 20 stub_jnius world0]
  from th have inv: "invocations (trace (snd (fun_to_optimize 2 20 stub_jnius ?d
      (set_classpath world0)))) = []"
    by (simp add: stub_trace)
  from th stub_autoclass obtain i' e' where i': "0 \<le> i'" "i' < 2"
     "getitem ?d (''x'' @ str_int i') = Inl e'"
     "fst (fun_to_optimize 2 20 stub_jnius ?d (set_classpath world0)) = Inl e'"
    by auto
  from i'(1,2) have "i' = 0 \<or> i' = 1" by auto
  with i'(3) have "e' = KeyError ''x1''" by (auto simp: str_int_0 str_int_1 getitem_dict)
  with i'(4) have key: "fst (fun_to_optimize 2 20 stub_jnius ?d (set_classpath world0)) =
      Inl (KeyError ''x1'')" by simp
  have "autoclass stub_jnius (environ (world0 :: (real, real, nat) world)) ''RunStrategy''
      (jvm (world0 :: (real, real, nat) world)) = (Inl (JavaException ''RunStrategy''), 0)"
    by (simp add: stub_jnius_def world0_def)
  with th0 have cls: "fst (fun_to_optimize 2 20 stub_jnius ?d world0) =
      Inl (JavaException ''RunStrategy'')"
    by blast
  from m inv key cls show ?thesis by (intro conjI)
qed

end
